theory Spec2Isabelle
  imports Complex_Main
begin

section \<open>Data model\<close>

text \<open>
  The dashboard \<^verbatim>\<open>app.py\<close> works on pandas objects. A pandas \<^verbatim>\<open>Series\<close> is an index
  (here: timestamps) together with one float per index entry; it is modelled as a list of
  pairs, so that index and values have the same length by construction. Floats are
  modelled as reals: rounding is not part of the model, and the series holds no NaN.
  Timestamps are integers (seconds since the epoch).
\<close>

type_synonym timestamp = int

type_synonym series = "(timestamp \<times> real) list"

text \<open>\<^verbatim>\<open>series.iloc[i]\<close> and \<^verbatim>\<open>series.index[i]\<close>; both are only ever read at \<open>i < length series\<close>.\<close>

definition iloc :: "series \<Rightarrow> nat \<Rightarrow> real" where
  "iloc series i = snd (series ! i)"

definition index_at :: "series \<Rightarrow> nat \<Rightarrow> timestamp" where
  "index_at series i = fst (series ! i)"

datatype error = IndexError

text \<open>
  Division of two numpy floats does not raise: a zero divisor gives \<^verbatim>\<open>inf\<close> or
  \<^verbatim>\<open>nan\<close>. \<open>None\<close> stands for such a non-finite result.
\<close>

definition fdiv :: "real \<Rightarrow> real \<Rightarrow> real option" where
  "fdiv a b = (if b = 0 then None else Some (a / b))"

text \<open>
  The tuples appended to \<^verbatim>\<open>bull_markets\<close> and \<^verbatim>\<open>bear_markets\<close>. A bull tuple is
  \<^verbatim>\<open>(start_idx, i-1, start date, end date, trough, peak, magnitude)\<close>, a bear tuple has
  \<^verbatim>\<open>peak, trough\<close> in the fifth and sixth place; the record names the components, so
  \<open>p_trough\<close> is the reported low and \<open>p_peak\<close> the reported high of either kind.
\<close>

record phase =
  p_start_idx :: nat
  p_end_idx :: nat
  p_start_date :: timestamp
  p_end_date :: timestamp
  p_trough :: real
  p_peak :: real
  p_magnitude :: "real option"

text \<open>The local variables of \<^verbatim>\<open>identify_market_phases\<close>.\<close>

record scan_state =
  bull_markets :: "phase list"
  bear_markets :: "phase list"
  in_bull :: bool
  in_bear :: bool
  start_idx :: nat
  peak :: real
  trough :: real

section \<open>Identification of the market phases\<close>

definition init_state :: "series \<Rightarrow> scan_state" where
  "init_state series =
     \<lparr>bull_markets = [], bear_markets = [], in_bull = False, in_bear = False,
      start_idx = 0, peak = iloc series 0, trough = iloc series 0\<rparr>"

definition bull_tuple :: "series \<Rightarrow> scan_state \<Rightarrow> nat \<Rightarrow> phase" where
  "bull_tuple series st e =
     \<lparr>p_start_idx = start_idx st, p_end_idx = e,
      p_start_date = index_at series (start_idx st), p_end_date = index_at series e,
      p_trough = trough st, p_peak = peak st,
      p_magnitude = fdiv (peak st - trough st) (trough st)\<rparr>"

definition bear_tuple :: "series \<Rightarrow> scan_state \<Rightarrow> nat \<Rightarrow> phase" where
  "bear_tuple series st e =
     \<lparr>p_start_idx = start_idx st, p_end_idx = e,
      p_start_date = index_at series (start_idx st), p_end_date = index_at series e,
      p_trough = trough st, p_peak = peak st,
      p_magnitude = fdiv (trough st - peak st) (peak st)\<rparr>"

text \<open>The \<^verbatim>\<open>if ... elif ...\<close> that confirms a bull or a bear market at position \<open>i\<close>.\<close>

definition check_phase :: "series \<Rightarrow> real \<Rightarrow> nat \<Rightarrow> scan_state \<Rightarrow> scan_state" where
  "check_phase series threshold i st =
     (let current_price = iloc series i in
      if \<not> in_bull st \<and> current_price \<ge> trough st * (1 + threshold) then
        (let st1 = (if in_bear st
                    then st\<lparr>bear_markets := bear_markets st @ [bear_tuple series st (i - 1)],
                            in_bear := False\<rparr>
                    else st)
         in st1\<lparr>in_bull := True, start_idx := i, trough := current_price\<rparr>)
      else if \<not> in_bear st \<and> current_price \<le> peak st * (1 - threshold) then
        (let st1 = (if in_bull st
                    then st\<lparr>bull_markets := bull_markets st @ [bull_tuple series st (i - 1)],
                            in_bull := False\<rparr>
                    else st)
         in st1\<lparr>in_bear := True, start_idx := i, peak := current_price\<rparr>)
      else st)"

text \<open>The second \<^verbatim>\<open>if ... elif ...\<close> of the loop body: \<^verbatim>\<open># Update peak and trough\<close>.\<close>

definition update_extrema :: "series \<Rightarrow> nat \<Rightarrow> scan_state \<Rightarrow> scan_state" where
  "update_extrema series i st =
     (let current_price = iloc series i in
      if in_bull st \<and> current_price > peak st then st\<lparr>peak := current_price\<rparr>
      else if in_bear st \<and> current_price < trough st then st\<lparr>trough := current_price\<rparr>
      else st)"

definition loop_body :: "series \<Rightarrow> real \<Rightarrow> scan_state \<Rightarrow> nat \<Rightarrow> scan_state" where
  "loop_body series threshold st i = update_extrema series i (check_phase series threshold i st)"

text \<open>\<^verbatim>\<open>for i in range(1, n)\<close>, from the initial state.\<close>

definition scan_to :: "series \<Rightarrow> real \<Rightarrow> nat \<Rightarrow> scan_state" where
  "scan_to series threshold n = foldl (loop_body series threshold) (init_state series) [1..<n]"

definition scan :: "series \<Rightarrow> real \<Rightarrow> scan_state" where
  "scan series threshold = scan_to series threshold (length series)"

text \<open>\<^verbatim>\<open># Handle the last phase\<close>\<close>

definition flush :: "series \<Rightarrow> scan_state \<Rightarrow> phase list \<times> phase list" where
  "flush series st =
     (if in_bull st
      then (bull_markets st @ [bull_tuple series st (length series - 1)], bear_markets st)
      else if in_bear st
      then (bull_markets st, bear_markets st @ [bear_tuple series st (length series - 1)])
      else (bull_markets st, bear_markets st))"

text \<open>
  The whole function. \<^verbatim>\<open>series.iloc[0]\<close> raises \<^verbatim>\<open>IndexError\<close> on an empty series;
  nothing else in the function raises, and \<^verbatim>\<open>threshold\<close> is never inspected.
\<close>

definition identify_market_phases :: "series \<Rightarrow> real \<Rightarrow> error + (phase list \<times> phase list)" where
  "identify_market_phases series threshold =
     (if series = [] then Inl IndexError
      else Inr (flush series (scan series threshold)))"

section \<open>The phase sequence\<close>

text \<open>
  The function returns the bull and the bear tuples in two lists. The phase sequence
  the specification speaks of is the two lists merged by position in the series (by
  \<open>p_start_idx\<close>), each tuple tagged with the list it comes from.
\<close>

datatype kind = Bull | Bear

fun merge_phases :: "phase list \<Rightarrow> phase list \<Rightarrow> (kind \<times> phase) list" where
  "merge_phases [] rs = map (Pair Bear) rs"
| "merge_phases bs [] = map (Pair Bull) bs"
| "merge_phases (b # bs) (r # rs) =
     (if p_start_idx b \<le> p_start_idx r
      then (Bull, b) # merge_phases bs (r # rs)
      else (Bear, r) # merge_phases (b # bs) rs)"

definition segment :: "series \<Rightarrow> real \<Rightarrow> error + (kind \<times> phase) list" where
  "segment series threshold =
     (case identify_market_phases series threshold of
        Inl e \<Rightarrow> Inl e
      | Inr (bulls, bears) \<Rightarrow> Inr (merge_phases bulls bears))"

text \<open>
  Consecutive phases: each one starts no later than it ends, the next one starts after
  it has ended, and the next one is of the other kind.
\<close>

fun well_ordered :: "(kind \<times> phase) list \<Rightarrow> bool" where
  "well_ordered [] = True"
| "well_ordered [a] = (p_start_idx (snd a) \<le> p_end_idx (snd a))"
| "well_ordered (a # b # ps) =
     (p_start_idx (snd a) \<le> p_end_idx (snd a) \<and>
      p_end_idx (snd a) < p_start_idx (snd b) \<and>
      fst a \<noteq> fst b \<and>
      well_ordered (b # ps))"

section \<open>The derived column of percentage changes\<close>

text \<open>
  Modelled from the spec: \<^verbatim>\<open>Series.pct_change\<close> is a function of the pandas library, not
  of this repository. With its default period of one it divides every entry by the
  entry before it and subtracts one; the first entry has no predecessor and is NaN.
  \<open>None\<close> stands for a float that is not a finite number: the NaN of the first entry,
  and the \<^verbatim>\<open>inf\<close> or \<^verbatim>\<open>nan\<close> that the division by a zero price gives.
\<close>

definition pct_change :: "real list \<Rightarrow> real option list" where
  "pct_change xs =
     map (\<lambda>t. if t = 0 then None
              else if xs ! (t - 1) = 0 then None
              else Some (xs ! t / xs ! (t - 1) - 1))
       [0..<length xs]"

text \<open>\<^verbatim>\<open>df['price_pct_change'] = df['petrol_price'].pct_change() * 100\<close>\<close>

definition price_pct_change :: "real list \<Rightarrow> real option list" where
  "price_pct_change petrol_price = map (map_option (\<lambda>v. v * 100)) (pct_change petrol_price)"

section \<open>The forecast table\<close>

text \<open>
  The columns \<^verbatim>\<open>ds, yhat, yhat_lower, yhat_upper\<close> that the dashboard keeps of the frame
  returned by \<^verbatim>\<open>model.predict\<close>. The model is loaded from a file and is opaque: its
  prediction is a parameter of the model below.
\<close>

record forecast_row =
  ds :: timestamp
  yhat :: real
  yhat_lower :: real
  yhat_upper :: real

text \<open>\<^verbatim>\<open>pd.to_datetime("2025-05-01")\<close>, in seconds since the epoch.\<close>

definition start_dt :: timestamp where
  "start_dt = 1746057600"

text \<open>\<^verbatim>\<open>datetime.now() + timedelta(days=1)\<close>\<close>

definition next_dt :: "timestamp \<Rightarrow> timestamp" where
  "next_dt now = now + 86400"

text \<open>
  The rows kept by \<^verbatim>\<open>.loc[(forecast.index >= start_dt) & (forecast.index <= next_dt)]\<close>,
  and \<^verbatim>\<open>next_day_price = forecast['yhat'].iloc[-1]\<close>, which raises \<^verbatim>\<open>IndexError\<close> when no
  row is left. The bounds are never compared.
\<close>

definition forecast :: "forecast_row list \<Rightarrow> timestamp \<Rightarrow> error + (forecast_row list \<times> real)" where
  "forecast predicted now =
     (let rows = filter (\<lambda>r. ds r \<ge> start_dt \<and> ds r \<le> next_dt now) predicted
      in if rows = [] then Inl IndexError
         else Inr (rows, yhat (last rows)))"

section \<open>Invariants of the scan\<close>

text \<open>Between two iterations: the tuples emitted so far, merged, are well ordered, they all end before the open phase starts, and the last of them is of the other kind than the open phase.\<close>

definition order_inv :: "nat \<Rightarrow> scan_state \<Rightarrow> bool" where
  "order_inv n st \<longleftrightarrow>
     \<not> (in_bull st \<and> in_bear st) \<and>
     well_ordered (merge_phases (bull_markets st) (bear_markets st)) \<and>
     (if in_bull st \<or> in_bear st
      then start_idx st < n \<and>
           (\<forall>p \<in> set (bull_markets st) \<union> set (bear_markets st).
               p_start_idx p \<le> p_end_idx p \<and> p_end_idx p < start_idx st) \<and>
           (merge_phases (bull_markets st) (bear_markets st) \<noteq> [] \<longrightarrow>
              fst (last (merge_phases (bull_markets st) (bear_markets st))) =
                (if in_bull st then Bear else Bull))
      else bull_markets st = [] \<and> bear_markets st = [])"

text \<open>Between two iterations: the low of an open bull phase, the high of an open bear phase, and the same of every emitted tuple, is the series value where the phase starts.\<close>

definition origin_inv :: "series \<Rightarrow> nat \<Rightarrow> scan_state \<Rightarrow> bool" where
  "origin_inv series n st \<longleftrightarrow>
     \<not> (in_bull st \<and> in_bear st) \<and>
     (in_bull st \<longrightarrow> trough st = iloc series (start_idx st) \<and> start_idx st < n) \<and>
     (in_bear st \<longrightarrow> peak st = iloc series (start_idx st) \<and> start_idx st < n) \<and>
     (\<forall>p\<in>set (bull_markets st). p_trough p = iloc series (p_start_idx p) \<and> p_start_idx p < n) \<and>
     (\<forall>p\<in>set (bear_markets st). p_peak p = iloc series (p_start_idx p) \<and> p_start_idx p < n)"

text \<open>Between two iterations, on a series of positive prices: the low is not above the high, in the open phase and in every emitted tuple, both are positive, and the magnitude is the quotient the source computes.\<close>

definition sign_inv :: "scan_state \<Rightarrow> bool" where
  "sign_inv st \<longleftrightarrow>
     \<not> (in_bull st \<and> in_bear st) \<and> 0 < peak st \<and> 0 < trough st \<and>
     (in_bull st \<or> in_bear st \<longrightarrow> trough st \<le> peak st) \<and>
     (\<forall>p\<in>set (bull_markets st). 0 < p_trough p \<and> p_trough p \<le> p_peak p \<and>
         p_magnitude p = fdiv (p_peak p - p_trough p) (p_trough p)) \<and>
     (\<forall>p\<in>set (bear_markets st). 0 < p_peak p \<and> p_trough p \<le> p_peak p \<and>
         p_magnitude p = fdiv (p_trough p - p_peak p) (p_peak p))"

text \<open>Between two iterations: the dates of an emitted tuple are the index entries at its two positions.\<close>

definition date_inv :: "series \<Rightarrow> nat \<Rightarrow> scan_state \<Rightarrow> bool" where
  "date_inv series n st \<longleftrightarrow>
     (in_bull st \<or> in_bear st \<longrightarrow> start_idx st < n) \<and>
     (\<forall>p\<in>set (bull_markets st) \<union> set (bear_markets st).
         p_end_idx p < n \<and>
         p_start_date p = index_at series (p_start_idx p) \<and>
         p_end_date p = index_at series (p_end_idx p))"

section \<open>Example inputs\<close>

text \<open>The series of the specification's scenario, at the timestamps 0 to 5.\<close>

definition scenario_series :: series where
  "scenario_series = [(0, 100), (1, 100), (2, 121), (3, 121), (4, 95), (5, 95)]"

text \<open>A fall, a partial recovery that confirms a bull market below the level where the fall began, and a flat end.\<close>

definition example_series :: series where
  "example_series = [(0, 100), (1, 70), (2, 50), (3, 65), (4, 65)]"

text \<open>The bull tuple the function returns on \<open>example_series\<close> with threshold 0.2.\<close>

definition example_bull :: phase where
  "example_bull = \<lparr>p_start_idx = 3, p_end_idx = 4, p_start_date = 3, p_end_date = 4,
      p_trough = 65, p_peak = 70, p_magnitude = Some (1 / 13)\<rparr>"

text \<open>The bear tuple the function returns on \<open>example_series\<close> with threshold 0.2.\<close>

definition example_bear :: phase where
  "example_bear = \<lparr>p_start_idx = 1, p_end_idx = 2, p_start_date = 1, p_end_date = 2,
      p_trough = 50, p_peak = 70, p_magnitude = Some (- (2 / 7))\<rparr>"

text \<open>A row of a model output whose lower bound lies above its upper bound, dated at the start of the window.\<close>

definition inverted_row :: forecast_row where
  "inverted_row = \<lparr>ds = 1746057600, yhat = 60, yhat_lower = 70, yhat_upper = 50\<rparr>"

section \<open>Merging and ordering\<close>

lemma merge_snoc_bull:
  "\<forall>p\<in>set bs \<union> set rs. p_start_idx p < p_start_idx b \<Longrightarrow>
   merge_phases (bs @ [b]) rs = merge_phases bs rs @ [(Bull, b)]"
proof (induction bs rs rule: merge_phases.induct)
  case (1 rs)
  then show ?case by (induction rs) auto
next
  case (2 v va)
  then show ?case by simp
next
  case (3 b bs r rs)
  then show ?case by auto
qed

lemma merge_snoc_bear:
  "\<forall>p\<in>set bs \<union> set rs. p_start_idx p < p_start_idx r \<Longrightarrow>
   merge_phases bs (rs @ [r]) = merge_phases bs rs @ [(Bear, r)]"
proof (induction bs rs rule: merge_phases.induct)
  case (1 rs)
  then show ?case by simp
next
  case (2 v va)
  then show ?case by (induction va arbitrary: v) auto
next
  case (3 b bs r rs)
  then show ?case by auto
qed

lemma well_ordered_snoc:
  "well_ordered (ps @ [x]) \<longleftrightarrow>
     well_ordered ps \<and> p_start_idx (snd x) \<le> p_end_idx (snd x) \<and>
     (ps = [] \<or> (p_end_idx (snd (last ps)) < p_start_idx (snd x) \<and> fst (last ps) \<noteq> fst x))"
  by (induction ps rule: well_ordered.induct) auto

lemma set_merge_phases:
  "set (merge_phases bs rs) = Pair Bull ` set bs \<union> Pair Bear ` set rs"
  by (induction bs rs rule: merge_phases.induct) auto

lemma scan_to_0: "scan_to series threshold 0 = init_state series"
  by (simp add: scan_to_def)

lemma scan_to_1: "scan_to series threshold (Suc 0) = init_state series"
  by (simp add: scan_to_def)

lemma scan_to_Suc:
  "1 \<le> n \<Longrightarrow> scan_to series threshold (Suc n) = loop_body series threshold (scan_to series threshold n) n"
  by (simp add: scan_to_def)

lemma update_extrema_fields [simp]:
  "bull_markets (update_extrema series i st) = bull_markets st"
  "bear_markets (update_extrema series i st) = bear_markets st"
  "in_bull (update_extrema series i st) = in_bull st"
  "in_bear (update_extrema series i st) = in_bear st"
  "start_idx (update_extrema series i st) = start_idx st"
  by (simp_all add: update_extrema_def Let_def)

lemma tuple_idx [simp]:
  "p_start_idx (bull_tuple series st e) = start_idx st"
  "p_end_idx (bull_tuple series st e) = e"
  "p_start_idx (bear_tuple series st e) = start_idx st"
  "p_end_idx (bear_tuple series st e) = e"
  by (simp_all add: bull_tuple_def bear_tuple_def)

lemma order_inv_init: "order_inv n (init_state series)"
  by (simp add: order_inv_def init_state_def)

lemma order_inv_update: "order_inv n (update_extrema series i st) = order_inv n st"
  by (simp add: order_inv_def)

lemma order_inv_check:
  assumes "order_inv n st" "1 \<le> n"
  shows "order_inv (Suc n) (check_phase series threshold n st)"
proof -
  let ?ps = "merge_phases (bull_markets st) (bear_markets st)"
  have excl: "\<not> (in_bull st \<and> in_bear st)" and wo: "well_ordered ?ps"
    using assms by (simp_all add: order_inv_def)
  consider (bull_from_bear) "\<not> in_bull st" "iloc series n \<ge> trough st * (1 + threshold)" "in_bear st"
    | (bull_from_none) "\<not> in_bull st" "iloc series n \<ge> trough st * (1 + threshold)" "\<not> in_bear st"
    | (bear_from_bull) "\<not> (\<not> in_bull st \<and> iloc series n \<ge> trough st * (1 + threshold))"
        "\<not> in_bear st" "iloc series n \<le> peak st * (1 - threshold)" "in_bull st"
    | (bear_from_none) "\<not> (\<not> in_bull st \<and> iloc series n \<ge> trough st * (1 + threshold))"
        "\<not> in_bear st" "iloc series n \<le> peak st * (1 - threshold)" "\<not> in_bull st"
    | (stay) "\<not> (\<not> in_bull st \<and> iloc series n \<ge> trough st * (1 + threshold))"
        "\<not> (\<not> in_bear st \<and> iloc series n \<le> peak st * (1 - threshold))"
    by blast
  then show ?thesis
  proof cases
    case bull_from_bear
    let ?r = "bear_tuple series st (n - 1)"
    have st: "check_phase series threshold n st =
        st\<lparr>bear_markets := bear_markets st @ [?r], in_bear := False,
           in_bull := True, start_idx := n, trough := iloc series n\<rparr>"
      using bull_from_bear by (simp add: check_phase_def Let_def)
    have old: "start_idx st < n"
      "\<forall>p \<in> set (bull_markets st) \<union> set (bear_markets st).
               p_start_idx p \<le> p_end_idx p \<and> p_end_idx p < start_idx st"
      "?ps \<noteq> [] \<longrightarrow> fst (last ?ps) = Bull"
      using assms bull_from_bear by (simp_all add: order_inv_def)
    have old_n: "\<forall>p \<in> set (bull_markets st) \<union> set (bear_markets st).
               p_start_idx p \<le> p_end_idx p \<and> p_end_idx p < n"
    proof
      fix p assume "p \<in> set (bull_markets st) \<union> set (bear_markets st)"
      then have "p_start_idx p \<le> p_end_idx p \<and> p_end_idx p < start_idx st"
        using old(2) by blast
      then show "p_start_idx p \<le> p_end_idx p \<and> p_end_idx p < n"
        using old(1) by simp
    qed
    have "\<forall>p\<in>set (bull_markets st) \<union> set (bear_markets st). p_start_idx p < p_start_idx ?r"
    proof
      fix p assume "p \<in> set (bull_markets st) \<union> set (bear_markets st)"
      then have "p_start_idx p \<le> p_end_idx p \<and> p_end_idx p < start_idx st"
        using old(2) by blast
      then show "p_start_idx p < p_start_idx ?r" by simp
    qed
    then have m: "merge_phases (bull_markets st) (bear_markets st @ [?r]) = ?ps @ [(Bear, ?r)]"
      by (rule merge_snoc_bear)
    have w: "well_ordered (?ps @ [(Bear, ?r)])"
    proof (cases "?ps = []")
      case True
      then show ?thesis using old(1) by simp
    next
      case False
      then have "snd (last ?ps) \<in> snd ` set ?ps" by simp
      then have "snd (last ?ps) \<in> set (bull_markets st) \<union> set (bear_markets st)"
        by (auto simp: set_merge_phases)
      then have "p_end_idx (snd (last ?ps)) < start_idx st" using old(2) by blast
      then show ?thesis using False old wo by (simp add: well_ordered_snoc)
    qed
    show ?thesis
      unfolding st order_inv_def using m w old(1) old_n assms(2)
      by (auto simp: less_Suc_eq)
  next
    case bull_from_none
    have st: "check_phase series threshold n st =
        st\<lparr>in_bull := True, start_idx := n, trough := iloc series n\<rparr>"
      using bull_from_none by (simp add: check_phase_def Let_def)
    have "bull_markets st = []" "bear_markets st = []"
      using assms bull_from_none by (simp_all add: order_inv_def)
    then show ?thesis unfolding st order_inv_def using bull_from_none by simp
  next
    case bear_from_bull
    let ?b = "bull_tuple series st (n - 1)"
    have st: "check_phase series threshold n st =
        st\<lparr>bull_markets := bull_markets st @ [?b], in_bull := False,
           in_bear := True, start_idx := n, peak := iloc series n\<rparr>"
      using bear_from_bull by (simp add: check_phase_def Let_def)
    have old: "start_idx st < n"
      "\<forall>p \<in> set (bull_markets st) \<union> set (bear_markets st).
               p_start_idx p \<le> p_end_idx p \<and> p_end_idx p < start_idx st"
      "?ps \<noteq> [] \<longrightarrow> fst (last ?ps) = Bear"
      using assms bear_from_bull by (simp_all add: order_inv_def)
    have old_n: "\<forall>p \<in> set (bull_markets st) \<union> set (bear_markets st).
               p_start_idx p \<le> p_end_idx p \<and> p_end_idx p < n"
    proof
      fix p assume "p \<in> set (bull_markets st) \<union> set (bear_markets st)"
      then have "p_start_idx p \<le> p_end_idx p \<and> p_end_idx p < start_idx st"
        using old(2) by blast
      then show "p_start_idx p \<le> p_end_idx p \<and> p_end_idx p < n"
        using old(1) by simp
    qed
    have "\<forall>p\<in>set (bull_markets st) \<union> set (bear_markets st). p_start_idx p < p_start_idx ?b"
    proof
      fix p assume "p \<in> set (bull_markets st) \<union> set (bear_markets st)"
      then have "p_start_idx p \<le> p_end_idx p \<and> p_end_idx p < start_idx st"
        using old(2) by blast
      then show "p_start_idx p < p_start_idx ?b" by simp
    qed
    then have m: "merge_phases (bull_markets st @ [?b]) (bear_markets st) = ?ps @ [(Bull, ?b)]"
      by (rule merge_snoc_bull)
    have w: "well_ordered (?ps @ [(Bull, ?b)])"
    proof (cases "?ps = []")
      case True
      then show ?thesis using old(1) by simp
    next
      case False
      then have "snd (last ?ps) \<in> snd ` set ?ps" by simp
      then have "snd (last ?ps) \<in> set (bull_markets st) \<union> set (bear_markets st)"
        by (auto simp: set_merge_phases)
      then have "p_end_idx (snd (last ?ps)) < start_idx st" using old(2) by blast
      then show ?thesis using False old wo by (simp add: well_ordered_snoc)
    qed
    show ?thesis
      unfolding st order_inv_def using m w old(1) old_n assms(2)
      by (auto simp: less_Suc_eq)
  next
    case bear_from_none
    have st: "check_phase series threshold n st =
        st\<lparr>in_bear := True, start_idx := n, peak := iloc series n\<rparr>"
      using bear_from_none by (simp add: check_phase_def Let_def)
    have "bull_markets st = []" "bear_markets st = []"
      using assms bear_from_none by (simp_all add: order_inv_def)
    then show ?thesis unfolding st order_inv_def using bear_from_none by simp
  next
    case stay
    then have "check_phase series threshold n st = st"
      by (auto simp: check_phase_def Let_def)
    then show ?thesis using assms by (auto simp: order_inv_def)
  qed
qed

section \<open>One iteration preserves the invariants\<close>

lemma tuple_fields [simp]:
  "p_trough (bull_tuple series st e) = trough st"
  "p_peak (bull_tuple series st e) = peak st"
  "p_magnitude (bull_tuple series st e) = fdiv (peak st - trough st) (trough st)"
  "p_start_date (bull_tuple series st e) = index_at series (start_idx st)"
  "p_end_date (bull_tuple series st e) = index_at series e"
  "p_trough (bear_tuple series st e) = trough st"
  "p_peak (bear_tuple series st e) = peak st"
  "p_magnitude (bear_tuple series st e) = fdiv (trough st - peak st) (peak st)"
  "p_start_date (bear_tuple series st e) = index_at series (start_idx st)"
  "p_end_date (bear_tuple series st e) = index_at series e"
  by (simp_all add: bull_tuple_def bear_tuple_def)

lemma origin_inv_init: "origin_inv series n (init_state series)"
  by (simp add: origin_inv_def init_state_def)

lemma origin_inv_step:
  "origin_inv series n st \<Longrightarrow> origin_inv series (Suc n) (loop_body series threshold st n)"
  unfolding origin_inv_def loop_body_def check_phase_def update_extrema_def Let_def
  by (auto simp: less_Suc_eq)

lemma sign_inv_step:
  "sign_inv st \<Longrightarrow> 0 < iloc series n \<Longrightarrow> sign_inv (loop_body series threshold st n)"
  unfolding sign_inv_def loop_body_def check_phase_def update_extrema_def Let_def
  by (auto simp: less_Suc_eq)

lemma date_inv_step:
  "date_inv series n st \<Longrightarrow> 1 \<le> n \<Longrightarrow> date_inv series (Suc n) (loop_body series threshold st n)"
  unfolding date_inv_def loop_body_def check_phase_def update_extrema_def Let_def
  by (auto simp: less_Suc_eq)

section \<open>The whole scan and the final flush\<close>

lemma scan_to_invariant:
  assumes init: "P (Suc 0) (init_state series)"
    and step: "\<And>n st. 1 \<le> n \<Longrightarrow> n < m \<Longrightarrow> P n st \<Longrightarrow> P (Suc n) (loop_body series threshold st n)"
    and m: "1 \<le> m"
  shows "P m (scan_to series threshold m)"
proof -
  have "1 \<le> k \<Longrightarrow> k \<le> m \<Longrightarrow> P k (scan_to series threshold k)" for k
  proof (induction k)
    case 0
    then show ?case by simp
  next
    case (Suc k)
    show ?case
    proof (cases "k = 0")
      case True
      then show ?thesis using init by (simp add: scan_to_1)
    next
      case False
      then have k: "1 \<le> k" "k < m" using Suc.prems by simp_all
      then have "P k (scan_to series threshold k)" using Suc.IH by simp
      then have "P (Suc k) (loop_body series threshold (scan_to series threshold k) k)"
        using k by (rule step[rotated 2])
      then show ?thesis using k by (simp add: scan_to_Suc)
    qed
  qed
  then show ?thesis using m by simp
qed

lemma order_inv_scan:
  assumes "series \<noteq> []"
  shows "order_inv (length series) (scan series threshold)"
  unfolding scan_def
proof (rule scan_to_invariant)
  show "order_inv (Suc 0) (init_state series)" by (rule order_inv_init)
  show "order_inv (Suc n) (loop_body series threshold st n)" if "1 \<le> n" "order_inv n st" for n st
    unfolding loop_body_def order_inv_update using that by (simp add: order_inv_check)
  show "1 \<le> length series" using assms by (simp add: Suc_le_eq)
qed

lemma origin_inv_scan:
  assumes "series \<noteq> []"
  shows "origin_inv series (length series) (scan series threshold)"
  unfolding scan_def
proof (rule scan_to_invariant)
  show "origin_inv series (Suc 0) (init_state series)" by (rule origin_inv_init)
  show "origin_inv series (Suc n) (loop_body series threshold st n)" if "origin_inv series n st" for n st
    using that by (rule origin_inv_step)
  show "1 \<le> length series" using assms by (simp add: Suc_le_eq)
qed

lemma date_inv_scan:
  assumes "series \<noteq> []"
  shows "date_inv series (length series) (scan series threshold)"
  unfolding scan_def
proof (rule scan_to_invariant)
  show "date_inv series (Suc 0) (init_state series)" by (simp add: date_inv_def init_state_def)
  show "date_inv series (Suc n) (loop_body series threshold st n)" if "1 \<le> n" "date_inv series n st" for n st
    using that(2,1) by (rule date_inv_step)
  show "1 \<le> length series" using assms by (simp add: Suc_le_eq)
qed

lemma sign_inv_scan:
  assumes "series \<noteq> []" and pos: "\<forall>x\<in>set series. 0 < snd x"
  shows "sign_inv (scan series threshold)"
  unfolding scan_def
proof (rule scan_to_invariant[where P = "\<lambda>n. sign_inv"])
  have "0 < iloc series 0" using assms by (simp add: iloc_def)
  then show "sign_inv (init_state series)" by (simp add: sign_inv_def init_state_def)
  show "sign_inv (loop_body series threshold st n)" if "n < length series" "sign_inv st" for n st
  proof -
    have "0 < iloc series n" using that(1) pos by (simp add: iloc_def)
    then show ?thesis using that(2) by (simp add: sign_inv_step)
  qed
  show "1 \<le> length series" using assms by (simp add: Suc_le_eq)
qed

lemma flush_bulls:
  "p \<in> set (fst (flush series st)) \<longleftrightarrow>
     p \<in> set (bull_markets st) \<or> (in_bull st \<and> p = bull_tuple series st (length series - 1))"
  by (auto simp: flush_def)

lemma flush_bears:
  "p \<in> set (snd (flush series st)) \<longleftrightarrow>
     p \<in> set (bear_markets st) \<or> (\<not> in_bull st \<and> in_bear st \<and> p = bear_tuple series st (length series - 1))"
  by (auto simp: flush_def)

lemma mem_merge_phases:
  "(Bull, p) \<in> set (merge_phases bs rs) \<longleftrightarrow> p \<in> set bs"
  "(Bear, p) \<in> set (merge_phases bs rs) \<longleftrightarrow> p \<in> set rs"
  by (auto simp: set_merge_phases)

lemma segment_Inr:
  "segment series threshold = Inr ps \<longleftrightarrow>
     series \<noteq> [] \<and>
     ps = merge_phases (fst (flush series (scan series threshold))) (snd (flush series (scan series threshold)))"
  by (auto simp: segment_def identify_market_phases_def split: prod.splits)

lemma merge_flush:
  assumes "order_inv n st"
  shows "merge_phases (fst (flush series st)) (snd (flush series st)) =
     merge_phases (bull_markets st) (bear_markets st) @
       (if in_bull st then [(Bull, bull_tuple series st (length series - 1))]
        else if in_bear st then [(Bear, bear_tuple series st (length series - 1))]
        else [])"
proof -
  have lt: "\<forall>p\<in>set (bull_markets st) \<union> set (bear_markets st). p_start_idx p < start_idx st"
    if "in_bull st \<or> in_bear st"
  proof
    fix p assume "p \<in> set (bull_markets st) \<union> set (bear_markets st)"
    then have "p_start_idx p \<le> p_end_idx p \<and> p_end_idx p < start_idx st"
      using assms that unfolding order_inv_def by auto
    then show "p_start_idx p < start_idx st" by simp
  qed
  show ?thesis
  proof (cases "in_bull st")
    case True
    then show ?thesis using lt by (simp add: flush_def merge_snoc_bull)
  next
    case nb: False
    show ?thesis
    proof (cases "in_bear st")
      case True
      then show ?thesis using lt nb by (simp add: flush_def merge_snoc_bear)
    next
      case False
      then show ?thesis using nb by (simp add: flush_def)
    qed
  qed
qed

lemma well_ordered_flush:
  assumes "order_inv (length series) st"
  shows "well_ordered (merge_phases (fst (flush series st)) (snd (flush series st)))"
proof -
  let ?ps = "merge_phases (bull_markets st) (bear_markets st)"
  have wo: "well_ordered ?ps" using assms by (simp add: order_inv_def)
  have last_end: "p_end_idx (snd (last ?ps)) < start_idx st"
    if "in_bull st \<or> in_bear st" "?ps \<noteq> []"
  proof -
    have "snd (last ?ps) \<in> snd ` set ?ps" using that(2) by simp
    then have "snd (last ?ps) \<in> set (bull_markets st) \<union> set (bear_markets st)"
      by (auto simp: set_merge_phases)
    then show ?thesis using assms that(1) unfolding order_inv_def by auto
  qed
  have mode: "start_idx st \<le> length series - 1"
    "?ps \<noteq> [] \<longrightarrow> fst (last ?ps) = (if in_bull st then Bear else Bull)"
    if "in_bull st \<or> in_bear st"
    using assms that unfolding order_inv_def by auto
  have excl: "\<not> (in_bull st \<and> in_bear st)" using assms by (simp add: order_inv_def)
  show ?thesis
    unfolding merge_flush[OF assms]
    using wo last_end mode excl by (auto simp: well_ordered_snoc)
qed

lemma well_ordered_nth:
  "well_ordered ps \<Longrightarrow> Suc k < length ps \<Longrightarrow>
     p_end_idx (snd (ps ! k)) < p_start_idx (snd (ps ! Suc k)) \<and> fst (ps ! k) \<noteq> fst (ps ! Suc k)"
proof (induction ps arbitrary: k rule: well_ordered.induct)
  case (3 a b ps)
  then show ?case by (cases k) auto
qed simp_all

lemma well_ordered_start_le_end:
  "well_ordered ps \<Longrightarrow> x \<in> set ps \<Longrightarrow> p_start_idx (snd x) \<le> p_end_idx (snd x)"
  by (induction ps rule: well_ordered.induct) auto

lemma flush_dates:
  assumes "date_inv series (length series) st" "series \<noteq> []"
    and "p \<in> set (fst (flush series st)) \<union> set (snd (flush series st))"
  shows "p_end_idx p < length series \<and>
         p_start_date p = index_at series (p_start_idx p) \<and>
         p_end_date p = index_at series (p_end_idx p)"
  using assms unfolding date_inv_def by (auto simp: flush_bulls flush_bears)

lemma index_at_mono:
  "sorted (map fst series) \<Longrightarrow> i \<le> j \<Longrightarrow> j < length series \<Longrightarrow> index_at series i \<le> index_at series j"
  using sorted_nth_mono[of "map fst series" i j] by (simp add: index_at_def)

section \<open>Evaluation of the examples\<close>

lemmas eval_defs = identify_market_phases_def scan_def scan_to_def upt_rec loop_body_def
  check_phase_def update_extrema_def init_state_def iloc_def index_at_def flush_def
  bull_tuple_def bear_tuple_def fdiv_def Let_def

lemma scenario_phases:
  "identify_market_phases scenario_series (1 / 5) =
     Inr ([\<lparr>p_start_idx = 2, p_end_idx = 3, p_start_date = 2, p_end_date = 3,
             p_trough = 121, p_peak = 121, p_magnitude = Some 0\<rparr>],
          [\<lparr>p_start_idx = 4, p_end_idx = 5, p_start_date = 4, p_end_date = 5,
             p_trough = 95, p_peak = 95, p_magnitude = Some 0\<rparr>])"
  by (simp add: scenario_series_def eval_defs)

lemma example_scan:
  "scan example_series (1 / 5) =
     \<lparr>bull_markets = [], bear_markets = [example_bear], in_bull = True, in_bear = False,
      start_idx = 3, peak = 70, trough = 65\<rparr>"
  by (simp add: example_series_def example_bear_def eval_defs)

lemma example_phases:
  "identify_market_phases example_series (1 / 5) = Inr ([example_bull], [example_bear])"
  by (simp add: identify_market_phases_def example_scan flush_def bull_tuple_def fdiv_def)
     (simp add: example_series_def example_bull_def index_at_def)

lemma example_segment:
  "segment example_series (1 / 5) = Inr [(Bear, example_bear), (Bull, example_bull)]"
  by (simp add: segment_def example_phases) (simp add: example_bull_def example_bear_def)

section \<open>The invariants after the final flush\<close>

lemma fdiv_pos: "0 < b \<Longrightarrow> fdiv a b = Some (a / b)"
  by (simp add: fdiv_def)

lemma sign_inv_flush:
  assumes "sign_inv st"
  shows "(\<forall>p\<in>set (fst (flush series st)). 0 < p_trough p \<and> p_trough p \<le> p_peak p \<and>
            p_magnitude p = fdiv (p_peak p - p_trough p) (p_trough p)) \<and>
         (\<forall>p\<in>set (snd (flush series st)). 0 < p_peak p \<and> p_trough p \<le> p_peak p \<and>
            p_magnitude p = fdiv (p_trough p - p_peak p) (p_peak p))"
  using assms unfolding sign_inv_def by (auto simp: flush_bulls flush_bears)

lemma origin_inv_flush:
  assumes "origin_inv series (length series) st"
  shows "(\<forall>p\<in>set (fst (flush series st)).
            p_start_idx p < length series \<and> p_trough p = iloc series (p_start_idx p)) \<and>
         (\<forall>p\<in>set (snd (flush series st)).
            p_start_idx p < length series \<and> p_peak p = iloc series (p_start_idx p))"
  using assms unfolding origin_inv_def by (auto simp: flush_bulls flush_bears)

section \<open>Percentage changes and the forecast window\<close>

lemma length_pct_change: "length (pct_change xs) = length xs"
  by (simp add: pct_change_def)

lemma pct_change_nth:
  "t < length xs \<Longrightarrow>
   pct_change xs ! t =
     (if t = 0 then None else if xs ! (t - 1) = 0 then None else Some (xs ! t / xs ! (t - 1) - 1))"
  by (simp add: pct_change_def)

lemma forecast_rows:
  "forecast predicted now =
     (if \<exists>r\<in>set predicted. start_dt \<le> ds r \<and> ds r \<le> next_dt now
      then Inr (filter (\<lambda>r. start_dt \<le> ds r \<and> ds r \<le> next_dt now) predicted,
                yhat (last (filter (\<lambda>r. start_dt \<le> ds r \<and> ds r \<le> next_dt now) predicted)))
      else Inl IndexError)"
  by (auto simp: forecast_def Let_def filter_empty_conv)

section \<open>The claims\<close>

text \<open>
  C1 (as amended). On the series \<open>[100, 100, 121, 121, 95, 95]\<close> with threshold 0.2 the
  function yields exactly two phases. The bull market is confirmed at position 2, where
  121 reaches 100 * 1.2; the phase starts there, at \<^verbatim>\<open>start_idx = i\<close>, and its low is
  the confirming price 121, so it spans the positions 2 to 3 with low 121, high 121 and
  magnitude 0. The bear market is confirmed at position 4, where 95 is below 121 * 0.8;
  its high is the confirming price 95, so it spans the positions 4 to 5 with high 95,
  low 95 and magnitude 0, and it is the open phase appended after the loop.
\<close>

theorem scenario_result:
  "segment scenario_series (1 / 5) =
     Inr [(Bull, \<lparr>p_start_idx = 2, p_end_idx = 3, p_start_date = 2, p_end_date = 3,
                  p_trough = 121, p_peak = 121, p_magnitude = Some 0\<rparr>),
          (Bear, \<lparr>p_start_idx = 4, p_end_idx = 5, p_start_date = 4, p_end_date = 5,
                  p_trough = 95, p_peak = 95, p_magnitude = Some 0\<rparr>)]"
  by (simp add: segment_def scenario_phases)

text \<open>
  C1 as stated, a bull phase over the positions 0 to 3 from 100 to 121 with magnitude
  0.21 followed by a bear phase over 4 to 5 from 121 to 95 with magnitude -26/121, is
  not what the function returns.
\<close>

theorem scenario_claimed_counterexample:
  "segment scenario_series (1 / 5) \<noteq>
     Inr [(Bull, \<lparr>p_start_idx = 0, p_end_idx = 3, p_start_date = 0, p_end_date = 3,
                  p_trough = 100, p_peak = 121, p_magnitude = Some (21 / 100)\<rparr>),
          (Bear, \<lparr>p_start_idx = 4, p_end_idx = 5, p_start_date = 4, p_end_date = 5,
                  p_trough = 95, p_peak = 121, p_magnitude = Some (- (26 / 121))\<rparr>)]"
  by (simp add: segment_def scenario_phases)

text \<open>
  C2. For every non-empty series and every threshold (in particular every threshold in
  the open interval from 0 to 1) the call succeeds, and in the sequence of the emitted
  phases, merged by position: every phase starts no later than it ends and ends inside
  the series; each phase ends before the next one starts; two consecutive phases are
  never of the same kind; and, when the timestamps of the series are in non-decreasing
  order, so are the start and end dates of the phases. (An empty series raises
  \<^verbatim>\<open>IndexError\<close> and emits no phase, see C7.)
\<close>

theorem phases_ordered_alternating:
  assumes "series \<noteq> []"
  shows "\<exists>ps. segment series threshold = Inr ps \<and>
     (\<forall>k<length ps. p_start_idx (snd (ps ! k)) \<le> p_end_idx (snd (ps ! k)) \<and>
                     p_end_idx (snd (ps ! k)) < length series) \<and>
     (\<forall>k. Suc k < length ps \<longrightarrow>
        p_end_idx (snd (ps ! k)) < p_start_idx (snd (ps ! Suc k)) \<and>
        fst (ps ! k) \<noteq> fst (ps ! Suc k)) \<and>
     (sorted (map fst series) \<longrightarrow>
        (\<forall>k<length ps. p_start_date (snd (ps ! k)) \<le> p_end_date (snd (ps ! k))) \<and>
        (\<forall>k. Suc k < length ps \<longrightarrow>
           p_end_date (snd (ps ! k)) \<le> p_start_date (snd (ps ! Suc k))))"
proof -
  let ?st = "scan series threshold"
  let ?ps = "merge_phases (fst (flush series ?st)) (snd (flush series ?st))"
  have seg: "segment series threshold = Inr ?ps"
    using assms by (simp add: segment_Inr)
  have wo: "well_ordered ?ps"
    using order_inv_scan[OF assms] by (rule well_ordered_flush)
  have dates: "p_end_idx (snd (?ps ! k)) < length series \<and>
         p_start_date (snd (?ps ! k)) = index_at series (p_start_idx (snd (?ps ! k))) \<and>
         p_end_date (snd (?ps ! k)) = index_at series (p_end_idx (snd (?ps ! k)))"
    if "k < length ?ps" for k
  proof -
    have "?ps ! k \<in> set ?ps" using that by simp
    then have "snd (?ps ! k) \<in> set (fst (flush series ?st)) \<union> set (snd (flush series ?st))"
      by (auto simp: set_merge_phases)
    then show ?thesis by (rule flush_dates[OF date_inv_scan[OF assms] assms])
  qed
  have le: "p_start_idx (snd (?ps ! k)) \<le> p_end_idx (snd (?ps ! k))" if "k < length ?ps" for k
    using wo that by (simp add: well_ordered_start_le_end)
  have adj: "p_end_idx (snd (?ps ! k)) < p_start_idx (snd (?ps ! Suc k)) \<and>
        fst (?ps ! k) \<noteq> fst (?ps ! Suc k)" if "Suc k < length ?ps" for k
    using wo that by (rule well_ordered_nth)
  have d1: "p_start_date (snd (?ps ! k)) \<le> p_end_date (snd (?ps ! k))"
    if "sorted (map fst series)" "k < length ?ps" for k
    using index_at_mono[OF that(1) le[OF that(2)]] dates[OF that(2)] by simp
  have d2: "p_end_date (snd (?ps ! k)) \<le> p_start_date (snd (?ps ! Suc k))"
    if "sorted (map fst series)" "Suc k < length ?ps" for k
  proof -
    have a: "p_end_idx (snd (?ps ! k)) \<le> p_start_idx (snd (?ps ! Suc k))"
      using adj[OF that(2)] by simp
    have b: "p_start_idx (snd (?ps ! Suc k)) < length series"
      using le[OF that(2)] dates[OF that(2)] by simp
    have "k < length ?ps" using that(2) by simp
    then show ?thesis
      using index_at_mono[OF that(1) a b] dates[OF that(2)] dates[of k] by simp
  qed
  show ?thesis
    using seg le dates adj d1 d2 by blast
qed

text \<open>
  The statement of C2 at the example series with threshold 0.2: a bear phase over the
  positions 1 to 2, then a bull phase over the positions 3 to 4.
\<close>

theorem phases_ordered_alternating_witness:
  "segment example_series (1 / 5) = Inr [(Bear, example_bear), (Bull, example_bull)] \<and>
   p_start_idx example_bear \<le> p_end_idx example_bear \<and>
   p_end_idx example_bear < p_start_idx example_bull \<and>
   p_start_idx example_bull \<le> p_end_idx example_bull \<and>
   p_end_idx example_bull < length example_series \<and>
   p_end_date example_bear \<le> p_start_date example_bull"
proof -
  have ne: "example_series \<noteq> []" by (simp add: example_series_def)
  have srt: "sorted (map fst example_series)" by (simp add: example_series_def)
  obtain ps where ps: "segment example_series (1 / 5) = Inr ps"
    and a: "\<forall>k<length ps. p_start_idx (snd (ps ! k)) \<le> p_end_idx (snd (ps ! k)) \<and>
                     p_end_idx (snd (ps ! k)) < length example_series"
    and b: "\<forall>k. Suc k < length ps \<longrightarrow>
        p_end_idx (snd (ps ! k)) < p_start_idx (snd (ps ! Suc k)) \<and>
        fst (ps ! k) \<noteq> fst (ps ! Suc k)"
    and c: "sorted (map fst example_series) \<longrightarrow>
        (\<forall>k<length ps. p_start_date (snd (ps ! k)) \<le> p_end_date (snd (ps ! k))) \<and>
        (\<forall>k. Suc k < length ps \<longrightarrow>
           p_end_date (snd (ps ! k)) \<le> p_start_date (snd (ps ! Suc k)))"
    using phases_ordered_alternating[OF ne, of "1 / 5"] by blast
  have eq: "ps = [(Bear, example_bear), (Bull, example_bull)]"
    using ps by (simp add: example_segment)
  have len: "length ps = 2" by (simp add: eq)
  have a0: "p_start_idx example_bear \<le> p_end_idx example_bear"
    using a[rule_format, of 0] by (simp add: eq)
  have a1: "p_start_idx example_bull \<le> p_end_idx example_bull \<and>
            p_end_idx example_bull < length example_series"
    using a[rule_format, of 1] by (simp add: eq)
  have b0: "p_end_idx example_bear < p_start_idx example_bull"
    using b[rule_format, of 0] by (simp add: eq)
  have c': "\<forall>k. Suc k < length ps \<longrightarrow>
           p_end_date (snd (ps ! k)) \<le> p_start_date (snd (ps ! Suc k))"
    using c srt by blast
  have c0: "p_end_date example_bear \<le> p_start_date example_bull"
    using c'[rule_format, of 0] by (simp add: eq)
  show ?thesis using ps a0 a1 b0 c0 by (simp add: eq)
qed

text \<open>
  C3. For every non-empty series of positive values and every threshold (in particular
  every threshold between 0 and 1), every emitted bull phase has a positive low and the
  magnitude (peak - trough) / trough, which is at least 0, and every emitted bear phase
  has a positive high and the magnitude (trough - peak) / peak, which is at most 0.
\<close>

theorem magnitude_signs:
  assumes "series \<noteq> []" and pos: "\<forall>x\<in>set series. 0 < snd x"
  shows "\<exists>ps. segment series threshold = Inr ps \<and>
     (\<forall>p. (Bull, p) \<in> set ps \<longrightarrow>
        0 < p_trough p \<and>
        p_magnitude p = Some ((p_peak p - p_trough p) / p_trough p) \<and>
        0 \<le> (p_peak p - p_trough p) / p_trough p) \<and>
     (\<forall>p. (Bear, p) \<in> set ps \<longrightarrow>
        0 < p_peak p \<and>
        p_magnitude p = Some ((p_trough p - p_peak p) / p_peak p) \<and>
        (p_trough p - p_peak p) / p_peak p \<le> 0)"
proof -
  let ?st = "scan series threshold"
  let ?ps = "merge_phases (fst (flush series ?st)) (snd (flush series ?st))"
  have seg: "segment series threshold = Inr ?ps"
    using assms(1) by (simp add: segment_Inr)
  note fl = sign_inv_flush[OF sign_inv_scan[OF assms, of threshold], where series = series]
  have bull: "0 < p_trough p \<and>
        p_magnitude p = Some ((p_peak p - p_trough p) / p_trough p) \<and>
        0 \<le> (p_peak p - p_trough p) / p_trough p" if "(Bull, p) \<in> set ?ps" for p
  proof -
    have "p \<in> set (fst (flush series ?st))" using that by (simp add: mem_merge_phases)
    then have "0 < p_trough p" "p_trough p \<le> p_peak p"
      "p_magnitude p = fdiv (p_peak p - p_trough p) (p_trough p)"
      using fl by blast+
    then show ?thesis by (simp add: fdiv_pos)
  qed
  have bear: "0 < p_peak p \<and>
        p_magnitude p = Some ((p_trough p - p_peak p) / p_peak p) \<and>
        (p_trough p - p_peak p) / p_peak p \<le> 0" if "(Bear, p) \<in> set ?ps" for p
  proof -
    have "p \<in> set (snd (flush series ?st))" using that by (simp add: mem_merge_phases)
    then have "0 < p_peak p" "p_trough p \<le> p_peak p"
      "p_magnitude p = fdiv (p_trough p - p_peak p) (p_peak p)"
      using fl by blast+
    then show ?thesis by (simp add: fdiv_pos divide_nonpos_pos)
  qed
  show ?thesis using seg bull bear by blast
qed

text \<open>
  The statement of C3 at the example series, whose values are all positive: the bull
  phase has magnitude 1/13, the bear phase -2/7.
\<close>

theorem magnitude_signs_witness:
  "segment example_series (1 / 5) = Inr [(Bear, example_bear), (Bull, example_bull)] \<and>
   p_magnitude example_bull = Some ((p_peak example_bull - p_trough example_bull) / p_trough example_bull) \<and>
   0 \<le> (p_peak example_bull - p_trough example_bull) / p_trough example_bull \<and>
   p_magnitude example_bear = Some ((p_trough example_bear - p_peak example_bear) / p_peak example_bear) \<and>
   (p_trough example_bear - p_peak example_bear) / p_peak example_bear \<le> 0"
proof -
  have ne: "example_series \<noteq> []" by (simp add: example_series_def)
  have pos: "\<forall>x\<in>set example_series. 0 < snd x" by (simp add: example_series_def)
  obtain ps where ps: "segment example_series (1 / 5) = Inr ps"
    and bull: "\<forall>p. (Bull, p) \<in> set ps \<longrightarrow>
        0 < p_trough p \<and>
        p_magnitude p = Some ((p_peak p - p_trough p) / p_trough p) \<and>
        0 \<le> (p_peak p - p_trough p) / p_trough p"
    and bear: "\<forall>p. (Bear, p) \<in> set ps \<longrightarrow>
        0 < p_peak p \<and>
        p_magnitude p = Some ((p_trough p - p_peak p) / p_peak p) \<and>
        (p_trough p - p_peak p) / p_peak p \<le> 0"
    using magnitude_signs[OF ne pos, of "1 / 5"] by blast
  have eq: "ps = [(Bear, example_bear), (Bull, example_bull)]"
    using ps by (simp add: example_segment)
  show ?thesis
    using ps bull[rule_format, of example_bull] bear[rule_format, of example_bear]
    by (simp add: eq)
qed

text \<open>
  C4 fails on the code. The claim: the low and the high of every emitted phase are
  series values at positions inside the phase. On the series
  \<open>[100, 70, 50, 65, 65]\<close> with threshold 0.2 the bull phase over the positions 3 to 4 is
  reported with the high 70, although the series is 65 at both positions; 70 is the value
  at position 1, where the preceding bear phase began. When a bull market is confirmed
  the function resets \<^verbatim>\<open>trough\<close> but leaves \<^verbatim>\<open>peak\<close> as it was, and the update
  \<^verbatim>\<open>if in_bull and current_price > peak\<close> then never replaces the older, higher value
  (and likewise for \<^verbatim>\<open>trough\<close> when a bear market is confirmed). The second
  evaluation shows the other direction on \<open>[50, 60, 200, 150, 140]\<close>: the bear phase at
  position 3 alone, where the series is 150, is reported with the low 60 of position 1,
  and the fall from 150 to 140 then confirms a bull market, because 140 is above 60 * 1.2.
\<close>

theorem stale_peak_in_bull_phase:
  "segment example_series (1 / 5) = Inr [(Bear, example_bear), (Bull, example_bull)] \<and>
   p_start_idx example_bull = 3 \<and> p_end_idx example_bull = 4 \<and>
   p_peak example_bull = 70 \<and>
   iloc example_series 3 = 65 \<and> iloc example_series 4 = 65 \<and>
   iloc example_series 1 = 70 \<and>
   identify_market_phases [(0, 50), (1, 60), (2, 200), (3, 150), (4, 140)] (1 / 5) =
     Inr ([\<lparr>p_start_idx = 1, p_end_idx = 2, p_start_date = 1, p_end_date = 2,
             p_trough = 60, p_peak = 200, p_magnitude = Some (7 / 3)\<rparr>,
           \<lparr>p_start_idx = 4, p_end_idx = 4, p_start_date = 4, p_end_date = 4,
             p_trough = 140, p_peak = 150, p_magnitude = Some (1 / 14)\<rparr>],
          [\<lparr>p_start_idx = 3, p_end_idx = 3, p_start_date = 3, p_end_date = 3,
             p_trough = 60, p_peak = 150, p_magnitude = Some (- (3 / 5))\<rparr>])"
  by (simp add: example_segment)
     (simp add: example_bull_def example_series_def eval_defs)

text \<open>
  C5. For every non-empty series and every threshold: if a bull or a bear phase is open
  when the loop ends, the function appends exactly one more tuple, to the list of that
  kind; it starts at \<^verbatim>\<open>start_idx\<close>, ends at the last position of the series, carries
  the current \<^verbatim>\<open>trough\<close> and \<^verbatim>\<open>peak\<close>, and is the last phase of the merged
  sequence.
\<close>

theorem open_phase_flushed:
  assumes "series \<noteq> []"
    and "in_bull (scan series threshold) \<or> in_bear (scan series threshold)"
  shows "\<exists>p. p_start_idx p = start_idx (scan series threshold) \<and>
     p_end_idx p = length series - 1 \<and>
     p_end_date p = index_at series (length series - 1) \<and>
     p_trough p = trough (scan series threshold) \<and>
     p_peak p = peak (scan series threshold) \<and>
     identify_market_phases series threshold =
       Inr (if in_bull (scan series threshold)
            then (bull_markets (scan series threshold) @ [p], bear_markets (scan series threshold))
            else (bull_markets (scan series threshold), bear_markets (scan series threshold) @ [p])) \<and>
     segment series threshold =
       Inr (merge_phases (bull_markets (scan series threshold)) (bear_markets (scan series threshold)) @
            [(if in_bull (scan series threshold) then Bull else Bear, p)])"
proof -
  let ?st = "scan series threshold"
  have seg: "segment series threshold =
      Inr (merge_phases (bull_markets ?st) (bear_markets ?st) @
        (if in_bull ?st then [(Bull, bull_tuple series ?st (length series - 1))]
         else if in_bear ?st then [(Bear, bear_tuple series ?st (length series - 1))]
         else []))"
    using assms(1) merge_flush[OF order_inv_scan[OF assms(1), of threshold], where series = series]
    by (simp add: segment_Inr)
  show ?thesis
  proof (cases "in_bull ?st")
    case True
    show ?thesis
      by (rule exI[of _ "bull_tuple series ?st (length series - 1)"])
         (use True seg assms(1) in \<open>simp add: identify_market_phases_def flush_def\<close>)
  next
    case False
    then have "in_bear ?st" using assms(2) by simp
    show ?thesis
      by (rule exI[of _ "bear_tuple series ?st (length series - 1)"])
         (use False \<open>in_bear ?st\<close> seg assms(1) in \<open>simp add: identify_market_phases_def flush_def\<close>)
  qed
qed

text \<open>
  The statement of C5 at the example series: the loop ends inside a bull phase, and the
  bull tuple ending at position 4, the last one, closes the sequence.
\<close>

theorem open_phase_flushed_witness:
  "in_bull (scan example_series (1 / 5)) \<and>
   segment example_series (1 / 5) = Inr ([(Bear, example_bear)] @ [(Bull, example_bull)]) \<and>
   p_end_idx example_bull = length example_series - 1"
proof -
  have ne: "example_series \<noteq> []" by (simp add: example_series_def)
  have open_bull: "in_bull (scan example_series (1 / 5))" by (simp add: example_scan)
  then have "in_bull (scan example_series (1 / 5)) \<or> in_bear (scan example_series (1 / 5))" ..
  from open_phase_flushed[OF ne this]
  obtain p where p: "p_end_idx p = length example_series - 1"
    "segment example_series (1 / 5) =
       Inr (merge_phases (bull_markets (scan example_series (1 / 5)))
              (bear_markets (scan example_series (1 / 5))) @
            [(if in_bull (scan example_series (1 / 5)) then Bull else Bear, p)])"
    by blast
  have "p = example_bull" using p(2) by (simp add: example_segment example_scan)
  then show ?thesis using p open_bull by (simp add: example_scan)
qed

text \<open>
  C6 (as amended). The threshold is never validated: with a threshold of at most 0 or
  at least 1 the call succeeds on every non-empty series and returns a phase sequence;
  it fails only on the empty series, with the \<^verbatim>\<open>IndexError\<close> of \<^verbatim>\<open>series.iloc[0]\<close>.
\<close>

theorem threshold_not_validated:
  assumes "threshold \<le> 0 \<or> 1 \<le> threshold"
  shows "(series \<noteq> [] \<longrightarrow> (\<exists>ps. segment series threshold = Inr ps)) \<and>
         (series = [] \<longrightarrow> segment series threshold = Inl IndexError)"
  by (simp add: segment_Inr) (simp add: segment_def identify_market_phases_def)

text \<open>
  The amended statement of C6 at the series \<open>[100, 121]\<close> with the thresholds 0 and 1.
\<close>

theorem threshold_not_validated_witness:
  "(\<exists>ps. segment [(0, 100), (1, 121)] 0 = Inr ps) \<and> (\<exists>ps. segment [(0, 100), (1, 121)] 1 = Inr ps)"
  using threshold_not_validated[of 0 "[(0, 100), (1, 121)]"]
        threshold_not_validated[of 1 "[(0, 100), (1, 121)]"]
  by simp

text \<open>
  C6 as stated, that a threshold of at most 0 or at least 1 makes the call fail, is
  false: on the series \<open>[100, 121]\<close> the threshold 0 returns one bull phase and the
  threshold 1 returns no phase, and neither call raises.
\<close>

theorem threshold_out_of_range_counterexample:
  "identify_market_phases [(0, 100), (1, 121)] 0 =
     Inr ([\<lparr>p_start_idx = 1, p_end_idx = 1, p_start_date = 1, p_end_date = 1,
             p_trough = 121, p_peak = 121, p_magnitude = Some 0\<rparr>], []) \<and>
   identify_market_phases [(0, 100), (1, 121)] 1 = Inr ([], [])"
  by (simp add: eval_defs)

text \<open>
  C7. A series with fewer than two points yields no phase: with one point the function
  returns two empty lists, and with no point the read \<^verbatim>\<open>series.iloc[0]\<close> fails with
  \<^verbatim>\<open>IndexError\<close>.
\<close>

theorem short_series_no_phases:
  assumes "length series < 2"
  shows "identify_market_phases series threshold =
           (if series = [] then Inl IndexError else Inr ([], [])) \<and>
         segment series threshold = (if series = [] then Inl IndexError else Inr [])"
proof (cases series)
  case Nil
  then show ?thesis by (simp add: segment_def identify_market_phases_def)
next
  case (Cons x xs)
  then have "xs = []" using assms by simp
  then have "scan series threshold = init_state series"
    using Cons by (simp add: scan_def scan_to_1)
  then show ?thesis
    using Cons by (simp add: segment_def identify_market_phases_def flush_def init_state_def)
qed

text \<open>
  The statement of C7 at a series of one point and at the empty series.
\<close>

theorem short_series_no_phases_witness:
  "identify_market_phases [(0, 100)] (1 / 5) = Inr ([], []) \<and>
   segment [(0, 100)] (1 / 5) = Inr [] \<and>
   segment [] (1 / 5) = Inl IndexError"
  using short_series_no_phases[of "[(0, 100)]" "1 / 5"] short_series_no_phases[of "[]" "1 / 5"]
  by simp

text \<open>
  C8 (as amended). The column \<^verbatim>\<open>price_pct_change\<close> has one entry per price; the
  first entry is absent, and at every later position whose previous price is not zero
  the entry is the change in percent, 100 * (price[t] - price[t-1]) / price[t-1].
\<close>

theorem price_pct_change_percent:
  "length (price_pct_change petrol_price) = length petrol_price \<and>
   (0 < length petrol_price \<longrightarrow> price_pct_change petrol_price ! 0 = None) \<and>
   (\<forall>t. 1 \<le> t \<and> t < length petrol_price \<and> petrol_price ! (t - 1) \<noteq> 0 \<longrightarrow>
      price_pct_change petrol_price ! t =
        Some (100 * ((petrol_price ! t - petrol_price ! (t - 1)) / petrol_price ! (t - 1))))"
proof -
  have a: "length (price_pct_change petrol_price) = length petrol_price"
    by (simp add: price_pct_change_def length_pct_change)
  have b: "price_pct_change petrol_price ! 0 = None" if "0 < length petrol_price"
    using that by (simp add: price_pct_change_def length_pct_change pct_change_nth)
  have c: "price_pct_change petrol_price ! t =
        Some (100 * ((petrol_price ! t - petrol_price ! (t - 1)) / petrol_price ! (t - 1)))"
    if "1 \<le> t" "t < length petrol_price" "petrol_price ! (t - 1) \<noteq> 0" for t
  proof -
    have "price_pct_change petrol_price ! t =
        Some ((petrol_price ! t / petrol_price ! (t - 1) - 1) * 100)"
      using that by (simp add: price_pct_change_def length_pct_change pct_change_nth)
    also have "(petrol_price ! t / petrol_price ! (t - 1) - 1) * 100 =
        100 * ((petrol_price ! t - petrol_price ! (t - 1)) / petrol_price ! (t - 1))"
      using that(3) by (simp add: field_simps)
    finally show ?thesis .
  qed
  show ?thesis using a b c by blast
qed

text \<open>
  The amended statement of C8 at the prices \<open>[100, 110]\<close>: absent, then 10 percent.
\<close>

theorem price_pct_change_percent_witness:
  "price_pct_change [100, 110] ! 0 = None \<and>
   price_pct_change [100, 110] ! 1 = Some (100 * ((110 - 100) / 100)) \<and>
   length (price_pct_change [100, 110]) = 2"
proof -
  note h = price_pct_change_percent[of "[100, 110]"]
  have "price_pct_change [100, 110] ! 1 =
        Some (100 * (([100, 110] ! 1 - [100, 110 :: real] ! (1 - 1)) / [100, 110] ! (1 - 1)))"
    using h[THEN conjunct2, THEN conjunct2, rule_format, of 1] by simp
  then show ?thesis using h by simp
qed

text \<open>
  C8 as stated, that the entry is the fraction (price[t] - price[t-1]) / price[t-1], is
  false: for the prices \<open>[100, 110]\<close> the entry at position 1 is 10, not 1/10.
\<close>

theorem pct_change_fraction_counterexample:
  "price_pct_change [100, 110] ! 1 \<noteq> Some ((110 - 100) / 100)"
  by (simp add: price_pct_change_def pct_change_def upt_rec)

text \<open>
  C9 (as amended). The forecast table is not checked against its bounds and the code
  has no error of its own for it: every row of the model output dated inside the window
  from \<^verbatim>\<open>start_dt\<close> to \<^verbatim>\<open>next_dt\<close> is emitted, whatever its bounds, only rows of the
  model output are emitted, and the next-day price is the estimate of the last of them;
  the only failure is the \<^verbatim>\<open>IndexError\<close> raised when no row is dated inside the window.
\<close>

theorem forecast_no_bounds_check:
  "(r \<in> set predicted \<and> start_dt \<le> ds r \<and> ds r \<le> next_dt now \<longrightarrow>
      (\<exists>rows price. forecast predicted now = Inr (rows, price) \<and>
         r \<in> set rows \<and> set rows \<subseteq> set predicted \<and> price = yhat (last rows))) \<and>
   ((\<forall>r\<in>set predicted. \<not> (start_dt \<le> ds r \<and> ds r \<le> next_dt now)) \<longrightarrow>
      forecast predicted now = Inl IndexError)"
  by (auto simp: forecast_rows)

text \<open>
  The amended statement of C9 at a model output of one row whose lower bound 70 lies
  above its upper bound 50, and at an empty model output.
\<close>

theorem forecast_no_bounds_check_witness:
  "yhat_upper inverted_row < yhat_lower inverted_row \<and>
   (\<exists>rows price. forecast [inverted_row] 1746057600 = Inr (rows, price) \<and>
      inverted_row \<in> set rows) \<and>
   forecast [] 1746057600 = Inl IndexError"
proof -
  have w: "inverted_row \<in> set [inverted_row] \<and> start_dt \<le> ds inverted_row \<and>
           ds inverted_row \<le> next_dt 1746057600"
    by (simp add: inverted_row_def start_dt_def next_dt_def)
  have "\<exists>rows price. forecast [inverted_row] 1746057600 = Inr (rows, price) \<and>
      inverted_row \<in> set rows"
    using forecast_no_bounds_check[of inverted_row "[inverted_row]" 1746057600, THEN conjunct1] w
    by blast
  moreover have "forecast [] 1746057600 = Inl IndexError"
    using forecast_no_bounds_check[of inverted_row "[]" 1746057600, THEN conjunct2] by simp
  moreover have "yhat_upper inverted_row < yhat_lower inverted_row"
    by (simp add: inverted_row_def)
  ultimately show ?thesis by blast
qed

text \<open>
  C9 as stated, that a row with lower bound above upper bound makes the forecast fail
  and emit no row, is false: the row with estimate 60, lower bound 70 and upper bound 50
  is emitted as it is, and 60 is shown as the next-day price.
\<close>

theorem forecast_inverted_bounds_counterexample:
  "forecast [\<lparr>ds = 1746057600, yhat = 60, yhat_lower = 70, yhat_upper = 50\<rparr>] 1746057600 =
     Inr ([\<lparr>ds = 1746057600, yhat = 60, yhat_lower = 70, yhat_upper = 50\<rparr>], 60)"
  by (simp add: forecast_def start_dt_def next_dt_def)

text \<open>
  C10. For every non-empty series and every threshold, every emitted bull phase starts
  inside the series and its low is the series value at its start position, and every
  emitted bear phase starts inside the series and its high is the series value at its
  start position.
\<close>

theorem origin_is_start_value:
  assumes "series \<noteq> []"
  shows "\<exists>ps. segment series threshold = Inr ps \<and>
     (\<forall>p. (Bull, p) \<in> set ps \<longrightarrow>
        p_start_idx p < length series \<and> p_trough p = iloc series (p_start_idx p)) \<and>
     (\<forall>p. (Bear, p) \<in> set ps \<longrightarrow>
        p_start_idx p < length series \<and> p_peak p = iloc series (p_start_idx p))"
proof -
  let ?st = "scan series threshold"
  let ?ps = "merge_phases (fst (flush series ?st)) (snd (flush series ?st))"
  have seg: "segment series threshold = Inr ?ps"
    using assms by (simp add: segment_Inr)
  note fl = origin_inv_flush[OF origin_inv_scan[OF assms, of threshold]]
  show ?thesis using seg fl by (auto simp: mem_merge_phases)
qed

text \<open>
  The statement of C10 at the example series: the bull phase starts at position 3 with
  low 65, the bear phase at position 1 with high 70.
\<close>

theorem origin_is_start_value_witness:
  "segment example_series (1 / 5) = Inr [(Bear, example_bear), (Bull, example_bull)] \<and>
   p_start_idx example_bull < length example_series \<and>
   p_trough example_bull = iloc example_series (p_start_idx example_bull) \<and>
   p_start_idx example_bear < length example_series \<and>
   p_peak example_bear = iloc example_series (p_start_idx example_bear)"
proof -
  have ne: "example_series \<noteq> []" by (simp add: example_series_def)
  obtain ps where ps: "segment example_series (1 / 5) = Inr ps"
    and bull: "\<forall>p. (Bull, p) \<in> set ps \<longrightarrow>
        p_start_idx p < length example_series \<and> p_trough p = iloc example_series (p_start_idx p)"
    and bear: "\<forall>p. (Bear, p) \<in> set ps \<longrightarrow>
        p_start_idx p < length example_series \<and> p_peak p = iloc example_series (p_start_idx p)"
    using origin_is_start_value[OF ne, of "1 / 5"] by blast
  have eq: "ps = [(Bear, example_bear), (Bull, example_bull)]"
    using ps by (simp add: example_segment)
  show ?thesis
    using ps bull[rule_format, of example_bull] bear[rule_format, of example_bear]
    by (simp add: eq)
qed

end
